theory Spec2Isabelle
  imports Complex_Main
begin

section \<open>The county loader and joiner of day3/regression.py\<close>

text \<open>
  The script reads two csv files of the County Health Rankings with \<open>read_csv\<close>
  and joins them on a "state__county" key with \<open>get_arrs\<close>. This theory embeds both
  functions and states the properties of the cleaning and of the join.
\<close>

subsection \<open>Data model\<close>

text \<open>
  \<open>csv.DictReader\<close> yields one dictionary per line, keyed by the names of the header.
  A field holds the text of its cell; a line shorter than the header has its missing
  fields filled with Python's \<open>None\<close> (the reader's \<open>restval\<close>). A column that is
  not in the header is not a key of the dictionary at all.
\<close>

datatype cell = Text string | NoneCell

type_synonym row = "string \<rightharpoonup> cell"

text \<open>The exceptions the two functions can meet.\<close>

datatype error = IOError | CsvError | KeyError string | ValueError | TypeError | IndexError

text \<open>
  What iterating over the \<open>DictReader\<close> of an opened file gives: the rows it yields,
  in file order, and how the iteration ends, either at the end of the file (\<open>None\<close>)
  or with an exception of the reader itself (\<open>csv.Error\<close> for a line it cannot split,
  \<open>IOError\<close> for a failed read), raised after the rows before it were yielded.
\<close>

datatype source = Source "row list" "error option"

text \<open>The files the interpreter can see: a name that cannot be opened is \<open>None\<close>.\<close>

type_synonym filesystem = "string \<Rightarrow> source option"

text \<open>
  The dictionary \<open>rows\<close> that \<open>read_csv\<close> builds, from region key to the numbers of
  the requested columns. The type \<open>'f\<close> stands for Python's floats.
\<close>

type_synonym 'f dataset = "string \<rightharpoonup> 'f list"

subsection \<open>Primitive operations of the language\<close>

text \<open>\<open>row[k]\<close>: a missing key raises \<open>KeyError\<close>.\<close>

definition getitem :: "row \<Rightarrow> string \<Rightarrow> error + cell" where
  "getitem row k = (case row k of None \<Rightarrow> Inl (KeyError k) | Some c \<Rightarrow> Inr c)"

text \<open>\<open>"%s" % c\<close>: a text is itself, \<open>None\<close> prints as the word None.\<close>

fun percent_s :: "cell \<Rightarrow> string" where
  "percent_s (Text s) = s"
| "percent_s NoneCell = ''None''"

text \<open>
  \<open>float(c)\<close>. The grammar of numeric literals belongs to the interpreter and is the
  parameter \<open>parse\<close> (\<open>None\<close> where the text is no number). Two cases are fixed here:
  \<open>float(None)\<close> raises \<open>TypeError\<close>, and \<open>float("")\<close> raises \<open>ValueError\<close>, the
  case the comment in the source counts on ("if a row[col] is empty, float(row[col])
  throws an exception").
\<close>

definition float_py :: "(string \<Rightarrow> 'f option) \<Rightarrow> cell \<Rightarrow> error + 'f" where
  "float_py parse c =
     (case c of
        NoneCell \<Rightarrow> Inl TypeError
      | Text s \<Rightarrow>
          (if s = [] then Inl ValueError
           else (case parse s of None \<Rightarrow> Inl ValueError | Some x \<Rightarrow> Inr x)))"

subsection \<open>read_csv\<close>

text \<open>
  \<open>[float(row[col]) for col in cols]\<close>: the columns are converted from left to right
  and the first exception leaves the comprehension.
\<close>

fun floats :: "(string \<Rightarrow> 'f option) \<Rightarrow> row \<Rightarrow> string list \<Rightarrow> error + 'f list" where
  "floats parse row [] = Inr []"
| "floats parse row (col # cols) =
     (case getitem row col of
        Inl e \<Rightarrow> Inl e
      | Inr c \<Rightarrow>
          (case float_py parse c of
             Inl e \<Rightarrow> Inl e
           | Inr x \<Rightarrow>
               (case floats parse row cols of
                  Inl e \<Rightarrow> Inl e
                | Inr xs \<Rightarrow> Inr (x # xs))))"

text \<open>\<open>"%s__%s" % (state, county)\<close>\<close>

definition rname :: "cell \<Rightarrow> cell \<Rightarrow> string" where
  "rname state county = percent_s state @ ''__'' @ percent_s county"

text \<open>
  \<open>check_reliable and row['Unreliable'] == "x"\<close>: the field is read only when the flag
  is set, so only then can its absence raise.
\<close>

definition unreliable :: "bool \<Rightarrow> row \<Rightarrow> error + bool" where
  "unreliable check_reliable row =
     (if check_reliable
      then (case getitem row ''Unreliable'' of
              Inl e \<Rightarrow> Inl e
            | Inr c \<Rightarrow> Inr (c = Text ''x''))
      else Inr False)"

text \<open>
  The body of the loop, on the dictionary built so far. The two \<open>continue\<close>s return
  the dictionary as it is. The lookups of Unreliable, County and State stand outside
  the \<open>try\<close>, so their \<open>KeyError\<close> leaves the function; whatever the comprehension
  raises is swallowed by the bare \<open>except: pass\<close>.
\<close>

definition process_row ::
  "(string \<Rightarrow> 'f option) \<Rightarrow> string list \<Rightarrow> bool \<Rightarrow> 'f dataset \<Rightarrow> row \<Rightarrow> error + 'f dataset" where
  "process_row parse cols check_reliable rows row =
     (case unreliable check_reliable row of
        Inl e \<Rightarrow> Inl e
      | Inr True \<Rightarrow> Inr rows
      | Inr False \<Rightarrow>
          (case getitem row ''County'' of
             Inl e \<Rightarrow> Inl e
           | Inr county \<Rightarrow>
               if county = Text '''' then Inr rows
               else
                 (case getitem row ''State'' of
                    Inl e \<Rightarrow> Inl e
                  | Inr state \<Rightarrow>
                      (case floats parse row cols of
                         Inl _ \<Rightarrow> Inr rows
                       | Inr vs \<Rightarrow> Inr (rows(rname state county \<mapsto> vs))))))"

text \<open>
  \<open>for row in reader\<close>, over the rows the reader yields: an exception that leaves the
  body ends the loop.
\<close>

fun read_loop ::
  "(string \<Rightarrow> 'f option) \<Rightarrow> string list \<Rightarrow> bool \<Rightarrow> row list \<Rightarrow> 'f dataset \<Rightarrow> error + 'f dataset" where
  "read_loop parse cols check_reliable [] rows = Inr rows"
| "read_loop parse cols check_reliable (row # reader) rows =
     (case process_row parse cols check_reliable rows row of
        Inl e \<Rightarrow> Inl e
      | Inr rows' \<Rightarrow> read_loop parse cols check_reliable reader rows')"

text \<open>
  \<open>read_csv(file_name, cols, check_reliable)\<close>: \<open>open\<close> raises \<open>IOError\<close> for a file
  that cannot be opened; otherwise the loop starts from the empty dictionary. The
  \<open>for\<close> statement stands outside the \<open>try\<close>, so an exception of the reader leaves
  the function once the rows before it went through the body; only at the end of the
  file is the dictionary returned.
\<close>

definition read_csv ::
  "filesystem \<Rightarrow> (string \<Rightarrow> 'f option) \<Rightarrow> string \<Rightarrow> string list \<Rightarrow> bool \<Rightarrow> error + 'f dataset" where
  "read_csv fs parse file_name cols check_reliable =
     (case fs file_name of
        None \<Rightarrow> Inl IOError
      | Some (Source reader stop) \<Rightarrow>
          (case read_loop parse cols check_reliable reader Map.empty of
             Inl e \<Rightarrow> Inl e
           | Inr rows \<Rightarrow> (case stop of None \<Rightarrow> Inr rows | Some e \<Rightarrow> Inl e)))"

subsection \<open>get_arrs\<close>

definition ypll_csv :: string where
  "ypll_csv = ''../datasets/county_health_rankings/ypll.csv''"

definition measures_csv :: string where
  "measures_csv = ''../datasets/county_health_rankings/additional_measures_cleaned.csv''"

text \<open>
  \<open>ypll.iteritems()\<close> enumerates the pairs of the dictionary in an order the language
  leaves to the implementation. An enumeration \<open>kvs\<close> of the dictionary \<open>d\<close> names
  every key once, with its value.
\<close>

definition iteritems_of :: "('k \<rightharpoonup> 'v) \<Rightarrow> ('k \<times> 'v) list \<Rightarrow> bool" where
  "iteritems_of d kvs \<longleftrightarrow> distinct (map fst kvs) \<and> map_of kvs = d"

text \<open>
  The join loop over the enumerated pairs, on the two lists built so far.
  \<open>value[0]\<close> raises \<open>IndexError\<close> on an empty list, outside any handler.
\<close>

fun join_loop ::
  "(string \<times> 'f list) list \<Rightarrow> 'f dataset \<Rightarrow> 'f list \<times> 'f list list \<Rightarrow>
     error + ('f list \<times> 'f list list)" where
  "join_loop [] measures' (ypll_arr, measures_arr) = Inr (ypll_arr, measures_arr)"
| "join_loop ((key, val) # rest) measures' (ypll_arr, measures_arr) =
     (case measures' key of
        None \<Rightarrow> join_loop rest measures' (ypll_arr, measures_arr)
      | Some m \<Rightarrow>
          (case val of
             [] \<Rightarrow> Inl IndexError
           | v0 # _ \<Rightarrow> join_loop rest measures' (ypll_arr @ [v0], measures_arr @ [m])))"

text \<open>
  \<open>get_arrs(dependent_cols, independent_cols)\<close>. The parameter \<open>iteritems\<close> is the
  enumeration order of the interpreter. \<open>numpy.array\<close> keeps the elements and their
  order, so the two arrays are the two lists.
\<close>

definition get_arrs ::
  "filesystem \<Rightarrow> (string \<Rightarrow> 'f option) \<Rightarrow> ('f dataset \<Rightarrow> (string \<times> 'f list) list) \<Rightarrow>
     string list \<Rightarrow> string list \<Rightarrow> error + ('f list \<times> 'f list list)" where
  "get_arrs fs parse iteritems dependent_cols independent_cols =
     (case read_csv fs parse ypll_csv dependent_cols True of
        Inl e \<Rightarrow> Inl e
      | Inr ypll \<Rightarrow>
          (case read_csv fs parse measures_csv independent_cols False of
             Inl e \<Rightarrow> Inl e
           | Inr measures' \<Rightarrow> join_loop (iteritems ypll) measures' ([], [])))"

subsection \<open>Notions used to state the properties\<close>

text \<open>
  The pairs of an enumeration whose key is also a key of \<open>m\<close>, and their keys: the
  regions of the join, in the order the loop meets them.
\<close>

definition matched :: "(string \<times> 'f list) list \<Rightarrow> 'f dataset \<Rightarrow> (string \<times> 'f list) list" where
  "matched kvs m = filter (\<lambda>kv. m (fst kv) \<noteq> None) kvs"

definition joined_keys :: "(string \<times> 'f list) list \<Rightarrow> 'f dataset \<Rightarrow> string list" where
  "joined_keys kvs m = filter (\<lambda>k. m k \<noteq> None) (map fst kvs)"

text \<open>
  A row lacks a field that the loop body reads outside its \<open>try\<close>: Unreliable when
  the flag is set, County for a row that is not skipped as unreliable, State for a row
  with a county.
\<close>

definition missing_field :: "bool \<Rightarrow> row \<Rightarrow> bool" where
  "missing_field check_reliable row =
     (if check_reliable \<and> row ''Unreliable'' = None then True
      else if check_reliable \<and> row ''Unreliable'' = Some (Text ''x'') then False
      else if row ''County'' = None then True
      else if row ''County'' = Some (Text '''') then False
      else row ''State'' = None)"

subsection \<open>A small example\<close>

text \<open>
  A mortality file with a state summary line, a county, a county marked unreliable and
  a county whose rate is missing; a measures file with two counties.
\<close>

definition sample_ypll :: "row list" where
  "sample_ypll =
     [[''State'' \<mapsto> Text ''WI'', ''County'' \<mapsto> Text '''', ''Unreliable'' \<mapsto> Text '''',
       ''YPLL Rate'' \<mapsto> Text ''6500''],
      [''State'' \<mapsto> Text ''WI'', ''County'' \<mapsto> Text ''Dane'', ''Unreliable'' \<mapsto> Text '''',
       ''YPLL Rate'' \<mapsto> Text ''7000''],
      [''State'' \<mapsto> Text ''WI'', ''County'' \<mapsto> Text ''Iron'', ''Unreliable'' \<mapsto> Text ''x'',
       ''YPLL Rate'' \<mapsto> Text ''9000''],
      [''State'' \<mapsto> Text ''WI'', ''County'' \<mapsto> Text ''Polk'', ''Unreliable'' \<mapsto> Text '''',
       ''YPLL Rate'' \<mapsto> Text '''']]"

definition sample_measures :: "row list" where
  "sample_measures =
     [[''State'' \<mapsto> Text ''WI'', ''County'' \<mapsto> Text ''Dane'', ''Population'' \<mapsto> Text ''500000''],
      [''State'' \<mapsto> Text ''WI'', ''County'' \<mapsto> Text ''Iron'', ''Population'' \<mapsto> Text ''6000'']]"

definition sample_fs :: filesystem where
  "sample_fs name =
     (if name = ypll_csv then Some (Source sample_ypll None)
      else if name = measures_csv then Some (Source sample_measures None)
      else None)"

definition sample_parse :: "string \<Rightarrow> real option" where
  "sample_parse s =
     (if s = ''6000'' then Some 6000
      else if s = ''6500'' then Some 6500
      else if s = ''7000'' then Some 7000
      else if s = ''9000'' then Some 9000
      else if s = ''500000'' then Some 500000
      else None)"

definition sample_iteritems :: "real dataset \<Rightarrow> (string \<times> real list) list" where
  "sample_iteritems d =
     List.map_filter (\<lambda>k. map_option (Pair k) (d k)) [''WI__Iron'', ''WI__Dane'']"

section \<open>Auxiliary facts\<close>

subsection \<open>The list comprehension\<close>

lemma floats_length: "floats parse row cols = Inr vs \<Longrightarrow> length vs = length cols"
  by (induction cols arbitrary: vs) (auto split: sum.splits)

lemma floats_getitem_fails:
  "col \<in> set cols \<Longrightarrow> getitem row col = Inl e \<Longrightarrow> \<exists>e'. floats parse row cols = Inl e'"
  by (induction cols) (auto split: sum.splits)

lemma floats_float_fails:
  "col \<in> set cols \<Longrightarrow> getitem row col = Inr c \<Longrightarrow> float_py parse c = Inl e \<Longrightarrow>
     \<exists>e'. floats parse row cols = Inl e'"
  by (induction cols) (auto split: sum.splits)

lemma floats_unparsable:
  assumes "col \<in> set cols" and "row col = Some c"
    and "c = NoneCell \<or> (\<exists>s. c = Text s \<and> (s = [] \<or> parse s = None))"
  shows "\<exists>e. floats parse row cols = Inl e"
proof -
  from assms(2) have "getitem row col = Inr c" by (simp add: getitem_def)
  moreover from assms(3) have "\<exists>e. float_py parse c = Inl e"
    by (auto simp: float_py_def)
  ultimately show ?thesis using floats_float_fails [OF assms(1)] by blast
qed

lemma floats_missing_column:
  assumes "col \<in> set cols" and "row col = None"
  shows "\<exists>e. floats parse row cols = Inl e"
proof -
  from assms(2) have "getitem row col = Inl (KeyError col)" by (simp add: getitem_def)
  then show ?thesis using floats_getitem_fails [OF assms(1)] by blast
qed

lemma floats_parsed:
  "list_all2 (\<lambda>col v. \<exists>s. row col = Some (Text s) \<and> s \<noteq> [] \<and> parse s = Some v) cols vs \<Longrightarrow>
     floats parse row cols = Inr vs"
  by (induction cols vs rule: list_all2_induct) (auto simp: getitem_def float_py_def)

subsection \<open>The body of the loop\<close>

lemma process_row_cases:
  "process_row parse cols chk rows row = Inr rows' \<Longrightarrow>
     rows' = rows \<or> (\<exists>k vs. rows' = rows(k \<mapsto> vs) \<and> length vs = length cols)"
  by (fastforce simp: process_row_def dest: floats_length
        split: sum.splits bool.splits if_splits)

lemma process_row_lengths:
  assumes "process_row parse cols chk rows row = Inr rows'"
    and "\<forall>k v. rows k = Some v \<longrightarrow> length v = length cols"
  shows "\<forall>k v. rows' k = Some v \<longrightarrow> length v = length cols"
  using process_row_cases [OF assms(1)] assms(2) by (auto split: if_splits)

lemma process_row_dom: "process_row parse cols chk rows row = Inr rows' \<Longrightarrow> dom rows \<subseteq> dom rows'"
  using process_row_cases [of parse cols chk rows row rows'] by auto

lemma process_row_empty_county:
  "row ''County'' = Some (Text '''') \<Longrightarrow> process_row parse cols chk rows row = Inr rows' \<Longrightarrow>
     rows' = rows"
  by (auto simp: process_row_def getitem_def split: sum.splits bool.splits)

lemma process_row_unreliable:
  "row ''Unreliable'' = Some (Text ''x'') \<Longrightarrow> process_row parse cols True rows row = Inr rows"
  by (simp add: process_row_def unreliable_def getitem_def)

lemma process_row_floats_fail:
  "floats parse row cols = Inl e \<Longrightarrow> process_row parse cols chk rows row = Inr rows' \<Longrightarrow>
     rows' = rows"
  by (auto simp: process_row_def split: sum.splits bool.splits if_splits)

lemma process_row_admits:
  assumes "unreliable chk row = Inr False"
    and "row ''County'' = Some county" and "county \<noteq> Text ''''"
    and "row ''State'' = Some state"
    and "floats parse row cols = Inr vs"
  shows "process_row parse cols chk rows row = Inr (rows(rname state county \<mapsto> vs))"
  using assms by (simp add: process_row_def getitem_def)

lemma process_row_written:
  assumes "process_row parse cols chk rows row = Inr rows'" and "rows' \<noteq> rows"
  shows "\<exists>state county vs. row ''State'' = Some state \<and> row ''County'' = Some county \<and>
           county \<noteq> Text '''' \<and> floats parse row cols = Inr vs \<and>
           unreliable chk row = Inr False \<and> rows' = rows(rname state county \<mapsto> vs)"
  using assms
  by (auto simp: process_row_def getitem_def split: sum.splits bool.splits if_splits option.splits)

lemma process_row_from_empty:
  "process_row parse cols chk rows row = Inr rows' \<Longrightarrow>
     \<exists>m. process_row parse cols chk Map.empty row = Inr m \<and> rows' = rows ++ m"
  by (auto simp: process_row_def split: sum.splits bool.splits if_splits)

lemma process_row_raises:
  "(\<exists>e. process_row parse cols chk rows row = Inl e) \<longleftrightarrow> missing_field chk row"
  by (auto simp: process_row_def unreliable_def getitem_def missing_field_def
      split: sum.splits bool.splits option.splits if_splits)

lemma process_row_keeps:
  assumes "\<not> missing_field chk row"
    and "\<And>rows'. process_row parse cols chk rows row = Inr rows' \<Longrightarrow> rows' = rows"
  shows "process_row parse cols chk rows row = Inr rows"
proof (cases "process_row parse cols chk rows row")
  case (Inl e)
  with assms(1) show ?thesis using process_row_raises by blast
next
  case (Inr rows')
  with assms(2) show ?thesis by simp
qed

subsection \<open>The loop of the loader\<close>

lemma read_loop_append:
  "read_loop parse cols chk (xs @ ys) rows =
     (case read_loop parse cols chk xs rows of
        Inl e \<Rightarrow> Inl e
      | Inr rows' \<Rightarrow> read_loop parse cols chk ys rows')"
  by (induction xs arbitrary: rows) (auto split: sum.splits)

lemma read_loop_lengths:
  "read_loop parse cols chk reader rows = Inr rows' \<Longrightarrow>
   \<forall>k v. rows k = Some v \<longrightarrow> length v = length cols \<Longrightarrow>
   \<forall>k v. rows' k = Some v \<longrightarrow> length v = length cols"
proof (induction reader arbitrary: rows)
  case Nil
  then show ?case by simp
next
  case (Cons row reader)
  from Cons.prems(1) obtain mid where
    step: "process_row parse cols chk rows row = Inr mid" and
    rest: "read_loop parse cols chk reader mid = Inr rows'"
    by (auto split: sum.splits)
  from process_row_lengths [OF step Cons.prems(2)] Cons.IH [OF rest]
  show ?case by blast
qed

lemma read_csv_returns:
  "read_csv fs parse f cols chk = Inr d \<longleftrightarrow>
     (\<exists>reader. fs f = Some (Source reader None) \<and>
        read_loop parse cols chk reader Map.empty = Inr d)"
  by (auto simp: read_csv_def split: option.splits source.splits sum.splits)

lemma read_csv_lengths:
  "read_csv fs parse f cols chk = Inr d \<Longrightarrow> d k = Some v \<Longrightarrow> length v = length cols"
  using read_loop_lengths [of parse cols chk _ Map.empty d]
  by (auto simp: read_csv_returns)

lemma read_loop_dom: "read_loop parse cols chk reader rows = Inr d \<Longrightarrow> dom rows \<subseteq> dom d"
proof (induction reader arbitrary: rows)
  case Nil
  then show ?case by simp
next
  case (Cons row reader)
  from Cons.prems obtain mid where
    p: "process_row parse cols chk rows row = Inr mid" and
    r: "read_loop parse cols chk reader mid = Inr d"
    by (auto split: sum.splits)
  from process_row_dom [OF p] Cons.IH [OF r] show ?case by blast
qed

lemma read_loop_keys:
  "read_loop parse cols chk reader rows = Inr d \<Longrightarrow> k \<in> dom d \<Longrightarrow>
     k \<in> dom rows \<or>
     (\<exists>row \<in> set reader. \<exists>state county. row ''State'' = Some state \<and>
        row ''County'' = Some county \<and> county \<noteq> Text '''' \<and> k = rname state county)"
proof (induction reader arbitrary: rows)
  case Nil
  then show ?case by simp
next
  case (Cons row reader)
  from Cons.prems(1) obtain mid where
    p: "process_row parse cols chk rows row = Inr mid" and
    r: "read_loop parse cols chk reader mid = Inr d"
    by (auto split: sum.splits)
  from Cons.IH [OF r Cons.prems(2)] consider
    (mid) "k \<in> dom mid" |
    (later) "\<exists>row \<in> set reader. \<exists>state county. row ''State'' = Some state \<and>
        row ''County'' = Some county \<and> county \<noteq> Text '''' \<and> k = rname state county"
    by blast
  then show ?case
  proof cases
    case mid
    show ?thesis
    proof (cases "mid = rows")
      case True
      with mid show ?thesis by simp
    next
      case False
      from process_row_written [OF p False] obtain state county vs where
        w: "row ''State'' = Some state" "row ''County'' = Some county" "county \<noteq> Text ''''"
          "mid = rows(rname state county \<mapsto> vs)"
        by blast
      show ?thesis
      proof (cases "k = rname state county")
        case True
        with w show ?thesis by auto
      next
        case False
        with mid w(4) show ?thesis by auto
      qed
    qed
  next
    case later
    then show ?thesis by auto
  qed
qed

lemma read_loop_untouched:
  "\<forall>r \<in> set reader. \<forall>m. process_row parse cols chk Map.empty r = Inr m \<longrightarrow> m k = None \<Longrightarrow>
   read_loop parse cols chk reader rows = Inr d \<Longrightarrow> d k = rows k"
proof (induction reader arbitrary: rows)
  case Nil
  then show ?case by simp
next
  case (Cons row reader)
  from Cons.prems(2) obtain mid where
    p: "process_row parse cols chk rows row = Inr mid" and
    r: "read_loop parse cols chk reader mid = Inr d"
    by (auto split: sum.splits)
  from process_row_from_empty [OF p] obtain m where
    m: "process_row parse cols chk Map.empty row = Inr m" "mid = rows ++ m" by blast
  with Cons.prems(1) have "m k = None" by simp
  with m(2) have "mid k = rows k" by (simp add: map_add_def)
  moreover from Cons.prems(1) have
    "\<forall>r \<in> set reader. \<forall>m. process_row parse cols chk Map.empty r = Inr m \<longrightarrow> m k = None"
    by simp
  from Cons.IH [OF this r] have "d k = mid k" .
  ultimately show ?case by simp
qed

lemma read_loop_skip:
  assumes skip: "\<And>rows rows'. process_row parse cols chk rows row = Inr rows' \<Longrightarrow> rows' = rows"
    and run: "read_loop parse cols chk (before @ row # after) rows = Inr d"
  shows "read_loop parse cols chk (before @ after) rows = Inr d"
proof -
  from run obtain mid where
    b: "read_loop parse cols chk before rows = Inr mid" and
    r: "read_loop parse cols chk (row # after) mid = Inr d"
    by (auto simp: read_loop_append split: sum.splits)
  from r obtain mid' where
    p: "process_row parse cols chk mid row = Inr mid'" and
    a: "read_loop parse cols chk after mid' = Inr d"
    by (auto split: sum.splits)
  from skip [OF p] a have "read_loop parse cols chk after mid = Inr d" by simp
  with b show ?thesis by (simp add: read_loop_append)
qed

lemma read_csv_skip:
  assumes "\<And>rows rows'. process_row parse cols chk rows row = Inr rows' \<Longrightarrow> rows' = rows"
    and "fs f = Some (Source (before @ row # after) stop)"
    and "read_csv fs parse f cols chk = Inr d"
  shows "read_csv (fs(f \<mapsto> Source (before @ after) stop)) parse f cols chk = Inr d"
proof -
  from assms(2,3) have stop: "stop = None"
    and "read_loop parse cols chk (before @ row # after) Map.empty = Inr d"
    by (simp_all add: read_csv_returns)
  with assms(1) have "read_loop parse cols chk (before @ after) Map.empty = Inr d"
    using read_loop_skip [of parse cols chk row before after Map.empty d] by blast
  with stop show ?thesis by (simp add: read_csv_returns)
qed

lemma read_loop_pass:
  assumes "\<And>rows. process_row parse cols chk rows row = Inr rows"
  shows "read_loop parse cols chk (before @ row # after) rows
           = read_loop parse cols chk (before @ after) rows"
  by (simp add: read_loop_append assms split: sum.splits)

lemma read_csv_pass:
  assumes "\<And>rows. process_row parse cols chk rows row = Inr rows"
    and "fs f = Some (Source (before @ row # after) stop)"
  shows "read_csv fs parse f cols chk
           = read_csv (fs(f \<mapsto> Source (before @ after) stop)) parse f cols chk"
  using assms(2) read_loop_pass [of parse cols chk row before after Map.empty, OF assms(1)]
  by (simp add: read_csv_def)

lemma read_loop_raises:
  "(\<exists>e. read_loop parse cols chk reader rows = Inl e) \<longleftrightarrow>
     (\<exists>row \<in> set reader. missing_field chk row)"
proof (induction reader arbitrary: rows)
  case Nil
  then show ?case by simp
next
  case (Cons row reader)
  show ?case
  proof (cases "process_row parse cols chk rows row")
    case (Inl e)
    then have "missing_field chk row" using process_row_raises by blast
    with Inl show ?thesis by simp
  next
    case (Inr mid)
    then have "\<not> missing_field chk row" using process_row_raises [of parse cols chk rows row] by simp
    with Inr Cons.IH [of mid] show ?thesis by simp
  qed
qed

subsection \<open>The loop of the join\<close>

lemma join_loop_result:
  "join_loop kvs m (ya, ma) = Inr (ys, ms) \<Longrightarrow>
     ys = ya @ map (\<lambda>kv. hd (snd kv)) (matched kvs m) \<and>
     ms = ma @ map (\<lambda>kv. the (m (fst kv))) (matched kvs m) \<and>
     (\<forall>kv \<in> set (matched kvs m). snd kv \<noteq> [])"
proof (induction kvs arbitrary: ya ma)
  case Nil
  then show ?case by (simp add: matched_def)
next
  case (Cons kv kvs)
  obtain key val where kv: "kv = (key, val)" by (cases kv)
  show ?case
  proof (cases "m key")
    case None
    with Cons.prems kv have "join_loop kvs m (ya, ma) = Inr (ys, ms)" by simp
    from Cons.IH [OF this] None kv show ?thesis by (simp add: matched_def)
  next
    case (Some mv)
    with Cons.prems kv obtain v0 vs where val: "val = v0 # vs"
      and rest: "join_loop kvs m (ya @ [v0], ma @ [mv]) = Inr (ys, ms)"
      by (cases val) auto
    from Cons.IH [OF rest] Some kv val show ?thesis by (simp add: matched_def)
  qed
qed

lemma join_loop_total:
  "\<forall>kv \<in> set kvs. snd kv \<noteq> [] \<Longrightarrow> \<exists>ys ms. join_loop kvs m (ya, ma) = Inr (ys, ms)"
proof (induction kvs arbitrary: ya ma)
  case Nil
  then show ?case by simp
next
  case (Cons kv kvs)
  obtain key val where kv: "kv = (key, val)" by (cases kv)
  with Cons.prems obtain v0 vs where val: "val = v0 # vs" by (cases val) auto
  from Cons.prems have tl: "\<forall>kv \<in> set kvs. snd kv \<noteq> []" by simp
  show ?case
    using Cons.IH [OF tl] kv val by (cases "m key") auto
qed

lemma join_loop_unmatched:
  "\<forall>kv \<in> set kvs. m (fst kv) = None \<Longrightarrow> join_loop kvs m (ya, ma) = Inr (ya, ma)"
  by (induction kvs) auto

lemma join_loop_append:
  "join_loop (xs @ zs) m (ya, ma) =
     (case join_loop xs m (ya, ma) of
        Inl e \<Rightarrow> Inl e
      | Inr (ya', ma') \<Rightarrow> join_loop zs m (ya', ma'))"
proof (induction xs arbitrary: ya ma)
  case Nil
  then show ?case by simp
next
  case (Cons kv xs)
  obtain key val where kv: "kv = (key, val)" by (cases kv)
  show ?case using Cons.IH kv
    by (cases "m key"; cases val) auto
qed

lemma join_loop_other_key:
  "k \<notin> fst ` set kvs \<Longrightarrow> join_loop kvs (m(k \<mapsto> v)) (ya, ma) = join_loop kvs m (ya, ma)"
proof (induction kvs arbitrary: ya ma)
  case Nil
  then show ?case by simp
next
  case (Cons kv kvs)
  obtain key val where kv: "kv = (key, val)" by (cases kv)
  with Cons.prems have "key \<noteq> k" and "k \<notin> fst ` set kvs" by auto
  with Cons.IH kv show ?case by (cases "m key"; cases val) auto
qed

lemma iteritems_keys: "iteritems_of d kvs \<Longrightarrow> fst ` set kvs = dom d"
  unfolding iteritems_of_def using dom_map_of_conv_image_fst [of kvs] by blast

lemma iteritems_lookup: "iteritems_of d kvs \<Longrightarrow> (k, v) \<in> set kvs \<Longrightarrow> d k = Some v"
  by (auto simp: iteritems_of_def)

lemma matched_keys: "map fst (matched kvs m) = joined_keys kvs m"
  by (simp add: matched_def joined_keys_def filter_map comp_def)

lemma length_joined_keys:
  assumes "iteritems_of d kvs"
  shows "length (joined_keys kvs m) = card (dom d \<inter> dom m)"
proof -
  from assms have "distinct (joined_keys kvs m)"
    by (simp add: iteritems_of_def joined_keys_def)
  then have "card (set (joined_keys kvs m)) = length (joined_keys kvs m)"
    by (rule distinct_card)
  moreover have "set (joined_keys kvs m) = dom d \<inter> dom m"
    using iteritems_keys [OF assms] by (auto simp: dom_def joined_keys_def)
  ultimately show ?thesis by metis
qed

lemma length_matched: "length (matched kvs m) = length (joined_keys kvs m)"
  using matched_keys [of kvs m] by (metis length_map)

lemma matched_nth:
  assumes "i < length (joined_keys kvs m)"
  shows "matched kvs m ! i \<in> set kvs"
    and "fst (matched kvs m ! i) = joined_keys kvs m ! i"
    and "m (joined_keys kvs m ! i) \<noteq> None"
proof -
  from assms have i: "i < length (matched kvs m)" by (simp add: length_matched)
  then have mem: "matched kvs m ! i \<in> set (matched kvs m)" by simp
  then show "matched kvs m ! i \<in> set kvs" by (simp add: matched_def)
  from i show key: "fst (matched kvs m ! i) = joined_keys kvs m ! i"
    using matched_keys [of kvs m] by (metis nth_map)
  from mem have "m (fst (matched kvs m ! i)) \<noteq> None" by (simp add: matched_def)
  with key show "m (joined_keys kvs m ! i) \<noteq> None" by simp
qed

lemma get_arrs_join:
  assumes "read_csv fs parse ypll_csv dcols True = Inr ypll"
    and "read_csv fs parse measures_csv icols False = Inr measures'"
  shows "get_arrs fs parse iteritems dcols icols = join_loop (iteritems ypll) measures' ([], [])"
  using assms by (simp add: get_arrs_def)

subsection \<open>The example\<close>

lemma sample_read_ypll:
  "read_csv sample_fs sample_parse ypll_csv [''YPLL Rate''] True = Inr [''WI__Dane'' \<mapsto> [7000]]"
  by (simp add: read_csv_def sample_fs_def sample_ypll_def process_row_def unreliable_def
      getitem_def float_py_def sample_parse_def rname_def)

lemma sample_read_ypll_unchecked:
  "read_csv sample_fs sample_parse ypll_csv [''YPLL Rate''] False =
     Inr [''WI__Dane'' \<mapsto> [7000], ''WI__Iron'' \<mapsto> [9000]]"
  by (simp add: read_csv_def sample_fs_def sample_ypll_def process_row_def unreliable_def
      getitem_def float_py_def sample_parse_def rname_def)

lemma sample_read_measures:
  "read_csv sample_fs sample_parse measures_csv [''Population''] False =
     Inr [''WI__Dane'' \<mapsto> [500000], ''WI__Iron'' \<mapsto> [6000]]"
  by (simp add: read_csv_def sample_fs_def sample_measures_def process_row_def unreliable_def
      getitem_def float_py_def sample_parse_def rname_def ypll_csv_def measures_csv_def)

lemma sample_iteritems_ok:
  "iteritems_of [''WI__Dane'' \<mapsto> [7000]] (sample_iteritems [''WI__Dane'' \<mapsto> [7000]])"
  by (simp add: iteritems_of_def sample_iteritems_def)

section \<open>Properties of the joiner and the loader\<close>

text \<open>
  C1. Whatever the two files hold, the two sequences that \<open>get_arrs\<close> returns have the
  same length, the number of keys that the two cleaned datasets share. The call does
  return them as soon as a dependent column is requested; with no dependent column the
  values of the dependent dataset are empty lists and \<open>value[0]\<close> raises on the first
  shared key.
\<close>

theorem get_arrs_lengths:
  assumes "read_csv fs parse ypll_csv dependent_cols True = Inr ypll"
    and "read_csv fs parse measures_csv independent_cols False = Inr measures'"
    and "iteritems_of ypll (iteritems ypll)"
  shows "(\<forall>ys ms. get_arrs fs parse iteritems dependent_cols independent_cols = Inr (ys, ms) \<longrightarrow>
            length ys = length ms \<and> length ms = card (dom ypll \<inter> dom measures')) \<and>
         (dependent_cols \<noteq> [] \<longrightarrow>
            (\<exists>ys ms. get_arrs fs parse iteritems dependent_cols independent_cols = Inr (ys, ms)))"
proof (intro conjI allI impI)
  fix ys ms
  assume "get_arrs fs parse iteritems dependent_cols independent_cols = Inr (ys, ms)"
  then have "join_loop (iteritems ypll) measures' ([], []) = Inr (ys, ms)"
    by (simp add: get_arrs_join [OF assms(1,2)])
  from join_loop_result [OF this]
  have "length ys = length (matched (iteritems ypll) measures')"
    and "length ms = length (matched (iteritems ypll) measures')"
    by simp_all
  then show "length ys = length ms" and "length ms = card (dom ypll \<inter> dom measures')"
    by (simp_all add: length_matched length_joined_keys [OF assms(3)])
next
  assume nonempty: "dependent_cols \<noteq> []"
  have "\<forall>kv \<in> set (iteritems ypll). snd kv \<noteq> []"
  proof
    fix kv assume "kv \<in> set (iteritems ypll)"
    then have "ypll (fst kv) = Some (snd kv)"
      using iteritems_lookup [OF assms(3), of "fst kv" "snd kv"] by simp
    from read_csv_lengths [OF assms(1) this] nonempty show "snd kv \<noteq> []" by auto
  qed
  from join_loop_total [OF this]
  show "\<exists>ys ms. get_arrs fs parse iteritems dependent_cols independent_cols = Inr (ys, ms)"
    by (simp add: get_arrs_join [OF assms(1,2)])
qed

theorem get_arrs_lengths_witness:
  "get_arrs sample_fs sample_parse sample_iteritems [''YPLL Rate''] [''Population'']
     = Inr ([7000], [[500000]]) \<and>
   card (dom [''WI__Dane'' \<mapsto> [7000::real]] \<inter>
         dom [''WI__Dane'' \<mapsto> [500000::real], ''WI__Iron'' \<mapsto> [6000]]) = 1"
proof -
  have run: "get_arrs sample_fs sample_parse sample_iteritems [''YPLL Rate''] [''Population'']
     = Inr ([7000], [[500000]])"
    by (simp add: get_arrs_def sample_read_ypll sample_read_measures sample_iteritems_def)
  from get_arrs_lengths [where iteritems = sample_iteritems, OF sample_read_ypll sample_read_measures sample_iteritems_ok] run
  show ?thesis by simp
qed

text \<open>
  C2. The keys of the join are met in the order in which the dependent dictionary
  enumerates them, and at every index the dependent number is the first value of the
  dependent dataset for the key at that index, the independent vector the entry of the
  measures dataset for the same key.
\<close>

theorem get_arrs_index_correspondence:
  assumes "read_csv fs parse ypll_csv dependent_cols True = Inr ypll"
    and "read_csv fs parse measures_csv independent_cols False = Inr measures'"
    and "iteritems_of ypll (iteritems ypll)"
    and "get_arrs fs parse iteritems dependent_cols independent_cols = Inr (ys, ms)"
  shows "length ys = length (joined_keys (iteritems ypll) measures') \<and>
         length ms = length (joined_keys (iteritems ypll) measures') \<and>
         (\<forall>i < length (joined_keys (iteritems ypll) measures').
            \<exists>v. ypll (joined_keys (iteritems ypll) measures' ! i) = Some v \<and> v \<noteq> [] \<and>
                ys ! i = v ! 0 \<and>
                measures' (joined_keys (iteritems ypll) measures' ! i) = Some (ms ! i))"
proof -
  let ?kvs = "iteritems ypll"
  let ?ks = "joined_keys ?kvs measures'"
  let ?mt = "matched ?kvs measures'"
  from assms(4) have "join_loop ?kvs measures' ([], []) = Inr (ys, ms)"
    by (simp add: get_arrs_join [OF assms(1,2)])
  from join_loop_result [OF this]
  have ys: "ys = map (\<lambda>kv. hd (snd kv)) ?mt"
    and ms: "ms = map (\<lambda>kv. the (measures' (fst kv))) ?mt"
    and ne: "\<forall>kv \<in> set ?mt. snd kv \<noteq> []"
    by simp_all
  have len: "length ?mt = length ?ks" by (rule length_matched)
  have "\<exists>v. ypll (?ks ! i) = Some v \<and> v \<noteq> [] \<and> ys ! i = v ! 0 \<and>
            measures' (?ks ! i) = Some (ms ! i)" if i: "i < length ?ks" for i
  proof -
    let ?kv = "?mt ! i"
    from i len have im: "i < length ?mt" by simp
    from matched_nth [OF i] have mem: "?kv \<in> set ?kvs" and key: "fst ?kv = ?ks ! i"
      and some: "measures' (?ks ! i) \<noteq> None" by simp_all
    from mem have "ypll (fst ?kv) = Some (snd ?kv)"
      using iteritems_lookup [OF assms(3), of "fst ?kv" "snd ?kv"] by simp
    with key have a: "ypll (?ks ! i) = Some (snd ?kv)" by simp
    from im ne have b: "snd ?kv \<noteq> []" by simp
    from im ys b have c: "ys ! i = snd ?kv ! 0" by (simp add: hd_conv_nth)
    from im ms key some have d: "measures' (?ks ! i) = Some (ms ! i)" by auto
    from a b c d show ?thesis by blast
  qed
  with ys ms len show ?thesis by simp
qed

theorem get_arrs_index_correspondence_witness:
  "get_arrs sample_fs sample_parse sample_iteritems [''YPLL Rate''] [''Population'']
     = Inr ([7000], [[500000]]) \<and>
   joined_keys (sample_iteritems [''WI__Dane'' \<mapsto> [7000]])
     [''WI__Dane'' \<mapsto> [500000], ''WI__Iron'' \<mapsto> [6000]] = [''WI__Dane''] \<and>
   (\<exists>v. [''WI__Dane'' \<mapsto> [7000::real]] ''WI__Dane'' = Some v \<and> v \<noteq> [] \<and>
        [7000] ! 0 = v ! 0 \<and>
        [''WI__Dane'' \<mapsto> [500000::real], ''WI__Iron'' \<mapsto> [6000]] ''WI__Dane''
          = Some ([[500000]] ! 0))"
proof -
  have run: "get_arrs sample_fs sample_parse sample_iteritems [''YPLL Rate''] [''Population'']
     = Inr ([7000], [[500000]])"
    by (simp add: get_arrs_def sample_read_ypll sample_read_measures sample_iteritems_def)
  have keys: "joined_keys (sample_iteritems [''WI__Dane'' \<mapsto> [7000]])
     [''WI__Dane'' \<mapsto> [500000], ''WI__Iron'' \<mapsto> [6000]] = [''WI__Dane'']"
    by (simp add: joined_keys_def sample_iteritems_def)
  from get_arrs_index_correspondence [where iteritems = sample_iteritems,
      OF sample_read_ypll sample_read_measures sample_iteritems_ok run]
  show ?thesis using run keys by simp
qed

text \<open>
  C3. A row in which some requested column holds a value that \<open>float\<close> does not
  convert (a text that is no number, the empty text included, or the \<open>None\<close> of a
  short line) adds nothing to the mapping that \<open>read_csv\<close> returns, whatever its other
  columns hold: the body of the loop stores nothing for it, not even the columns that
  do convert, and the loader returns what it returns for the source without that row.
\<close>

theorem read_csv_drops_unparsable_row:
  assumes "col \<in> set cols"
    and "row col = Some c"
    and "c = NoneCell \<or> (\<exists>s. c = Text s \<and> (s = [] \<or> parse s = None))"
  shows "(\<forall>rows rows'. process_row parse cols check_reliable rows row = Inr rows' \<longrightarrow>
            rows' = rows) \<and>
         (\<not> missing_field check_reliable row \<longrightarrow>
            (\<forall>rows. process_row parse cols check_reliable rows row = Inr rows)) \<and>
         (\<forall>fs file_name before after stop d.
            fs file_name = Some (Source (before @ row # after) stop) \<and>
            read_csv fs parse file_name cols check_reliable = Inr d \<longrightarrow>
            read_csv (fs(file_name \<mapsto> Source (before @ after) stop)) parse file_name cols
              check_reliable = Inr d)"
proof -
  from assms have "\<exists>e. floats parse row cols = Inl e" by (rule floats_unparsable)
  then obtain e where "floats parse row cols = Inl e" ..
  then have skip: "rows' = rows" if "process_row parse cols check_reliable rows row = Inr rows'"
    for rows rows' :: "'a dataset"
    using that by (rule process_row_floats_fail)
  have keep: "process_row parse cols check_reliable rows row = Inr rows"
    if "\<not> missing_field check_reliable row" for rows :: "'a dataset"
    using that skip by (rule process_row_keeps)
  have drop: "read_csv (fs(file_name \<mapsto> Source (before @ after) stop)) parse file_name cols
      check_reliable = Inr d"
    if "fs file_name = Some (Source (before @ row # after) stop)"
      and "read_csv fs parse file_name cols check_reliable = Inr d"
    for fs file_name before after stop d
    using skip that by (rule read_csv_skip)
  from skip keep drop show ?thesis by blast
qed

theorem read_csv_drops_unparsable_row_witness:
  "''YPLL Rate'' \<in> set [''YPLL Rate''] \<and>
   (sample_ypll ! 3) ''YPLL Rate'' = Some (Text '''') \<and>
   \<not> missing_field True (sample_ypll ! 3) \<and>
   process_row sample_parse [''YPLL Rate''] True Map.empty (sample_ypll ! 3) = Inr Map.empty \<and>
   sample_fs ypll_csv = Some (Source (take 3 sample_ypll @ sample_ypll ! 3 # []) None) \<and>
   read_csv sample_fs sample_parse ypll_csv [''YPLL Rate''] True = Inr [''WI__Dane'' \<mapsto> [7000]] \<and>
   read_csv (sample_fs(ypll_csv \<mapsto> Source (take 3 sample_ypll @ []) None)) sample_parse ypll_csv
     [''YPLL Rate''] True = Inr [''WI__Dane'' \<mapsto> [7000]]"
proof -
  have h1: "''YPLL Rate'' \<in> set [''YPLL Rate'']" by simp
  have h2: "(sample_ypll ! 3) ''YPLL Rate'' = Some (Text '''')" by (simp add: sample_ypll_def)
  have h3: "Text '''' = NoneCell \<or> (\<exists>s. Text '''' = Text s \<and> (s = [] \<or> sample_parse s = None))"
    by simp
  have h4: "sample_fs ypll_csv = Some (Source (take 3 sample_ypll @ sample_ypll ! 3 # []) None)"
    by (simp add: sample_fs_def sample_ypll_def)
  have h5: "\<not> missing_field True (sample_ypll ! 3)"
    by (simp add: missing_field_def sample_ypll_def)
  note inst = read_csv_drops_unparsable_row [where parse = sample_parse
      and row = "sample_ypll ! 3" and check_reliable = True, OF h1 h2 h3]
  from inst h5
  have a: "process_row sample_parse [''YPLL Rate''] True Map.empty (sample_ypll ! 3)
      = Inr Map.empty" by blast
  from inst h4 sample_read_ypll
  have b: "read_csv (sample_fs(ypll_csv \<mapsto> Source (take 3 sample_ypll @ []) None)) sample_parse
      ypll_csv [''YPLL Rate''] True = Inr [''WI__Dane'' \<mapsto> [7000]]" by blast
  from h1 h2 h5 a h4 sample_read_ypll b show ?thesis by blast
qed

text \<open>
  C4, as the code has it. Take a row whose Unreliable field is "x". With the flag set
  the body of the loop leaves the dictionary as it is, and the loader does what it
  does for the source without the row. With the flag off, if the row has a State
  field, its County is not the empty text and its requested columns all parse, the
  body stores the parsed numbers under the key of the row; that key is in every
  mapping the loader returns, and the loader does return one when the reader reaches
  the end of the file and no other row lacks a field read outside the \<open>try\<close>.
\<close>

theorem reliability_flag_gates_row:
  assumes "row ''Unreliable'' = Some (Text ''x'')"
    and "fs file_name = Some (Source (before @ row # after) stop)"
  shows "(\<forall>rows. process_row parse cols True rows row = Inr rows) \<and>
         read_csv fs parse file_name cols True
           = read_csv (fs(file_name \<mapsto> Source (before @ after) stop)) parse file_name cols True \<and>
         (row ''State'' = Some state \<and> row ''County'' = Some county \<and> county \<noteq> Text '''' \<and>
          list_all2 (\<lambda>col v. \<exists>s. row col = Some (Text s) \<and> s \<noteq> [] \<and> parse s = Some v) cols vs \<longrightarrow>
            (\<forall>rows. process_row parse cols False rows row
               = Inr (rows(rname state county \<mapsto> vs))) \<and>
            (\<forall>d. read_csv fs parse file_name cols False = Inr d \<longrightarrow> rname state county \<in> dom d) \<and>
            (stop = None \<and> (\<forall>r \<in> set (before @ after). \<not> missing_field False r) \<longrightarrow>
               (\<exists>d. read_csv fs parse file_name cols False = Inr d \<and>
                    rname state county \<in> dom d)))"
proof (intro conjI impI)
  have pass: "process_row parse cols True rows row = Inr rows" for rows :: "'a dataset"
    using assms(1) by (simp add: process_row_unreliable)
  then show "\<forall>rows. process_row parse cols True rows row = Inr rows" by blast
  from pass assms(2)
  show "read_csv fs parse file_name cols True
      = read_csv (fs(file_name \<mapsto> Source (before @ after) stop)) parse file_name cols True"
    by (rule read_csv_pass)
next
  assume h: "row ''State'' = Some state \<and> row ''County'' = Some county \<and> county \<noteq> Text '''' \<and>
    list_all2 (\<lambda>col v. \<exists>s. row col = Some (Text s) \<and> s \<noteq> [] \<and> parse s = Some v) cols vs"
  then have fl: "floats parse row cols = Inr vs" by (simp add: floats_parsed)
  have un: "unreliable False row = Inr False" by (simp add: unreliable_def)
  have step: "process_row parse cols False rows row = Inr (rows(rname state county \<mapsto> vs))"
    for rows
    using h process_row_admits [OF un _ _ _ fl, of county state rows] by simp
  then show "\<forall>rows. process_row parse cols False rows row
      = Inr (rows(rname state county \<mapsto> vs))" by blast
  have kept: "rname state county \<in> dom d"
    if "read_loop parse cols False (before @ row # after) Map.empty = Inr d" for d
  proof -
    from that obtain mid where
      a: "read_loop parse cols False after (mid(rname state county \<mapsto> vs)) = Inr d"
      by (auto simp: read_loop_append step split: sum.splits)
    from read_loop_dom [OF a] show ?thesis by auto
  qed
  show "\<forall>d. read_csv fs parse file_name cols False = Inr d \<longrightarrow> rname state county \<in> dom d"
    using assms(2) kept by (auto simp: read_csv_returns)
  {
    assume ok: "stop = None \<and> (\<forall>r \<in> set (before @ after). \<not> missing_field False r)"
    have "\<not> missing_field False row" using h by (simp add: missing_field_def)
    with ok have "\<not> (\<exists>r \<in> set (before @ row # after). missing_field False r)" by auto
    then have "\<not> (\<exists>e. read_loop parse cols False (before @ row # after) Map.empty = Inl e)"
      using read_loop_raises [of parse cols False "before @ row # after" Map.empty] by blast
    then obtain d where
      d: "read_loop parse cols False (before @ row # after) Map.empty = Inr d"
      by (cases "read_loop parse cols False (before @ row # after) Map.empty") auto
    with ok assms(2) have "read_csv fs parse file_name cols False = Inr d"
      by (simp add: read_csv_returns)
    with kept [OF d]
    show "\<exists>d. read_csv fs parse file_name cols False = Inr d \<and> rname state county \<in> dom d"
      by blast
  }
qed

theorem reliability_flag_gates_row_witness:
  "(sample_ypll ! 2) ''Unreliable'' = Some (Text ''x'') \<and>
   (sample_ypll ! 2) ''State'' = Some (Text ''WI'') \<and>
   (sample_ypll ! 2) ''County'' = Some (Text ''Iron'') \<and>
   sample_fs ypll_csv
     = Some (Source (take 2 sample_ypll @ sample_ypll ! 2 # drop 3 sample_ypll) None) \<and>
   process_row sample_parse [''YPLL Rate''] True Map.empty (sample_ypll ! 2) = Inr Map.empty \<and>
   read_csv (sample_fs(ypll_csv \<mapsto> Source (take 2 sample_ypll @ drop 3 sample_ypll) None))
     sample_parse ypll_csv [''YPLL Rate''] True = Inr [''WI__Dane'' \<mapsto> [7000]] \<and>
   process_row sample_parse [''YPLL Rate''] False Map.empty (sample_ypll ! 2)
     = Inr [''WI__Iron'' \<mapsto> [9000]] \<and>
   ''WI__Iron'' \<in> dom [''WI__Dane'' \<mapsto> [7000::real], ''WI__Iron'' \<mapsto> [9000]] \<and>
   (\<exists>d. read_csv sample_fs sample_parse ypll_csv [''YPLL Rate''] False = Inr d \<and>
        ''WI__Iron'' \<in> dom d)"
proof -
  let ?row = "sample_ypll ! 2"
  have h1: "?row ''Unreliable'' = Some (Text ''x'')" by (simp add: sample_ypll_def)
  have h2: "?row ''County'' = Some (Text ''Iron'')" by (simp add: sample_ypll_def)
  have h3: "Text ''Iron'' \<noteq> Text ''''" by simp
  have h4: "list_all2 (\<lambda>col v. \<exists>s. ?row col = Some (Text s) \<and> s \<noteq> [] \<and> sample_parse s = Some v)
      [''YPLL Rate''] [9000]"
    by (simp add: sample_ypll_def sample_parse_def)
  have h5: "sample_fs ypll_csv
      = Some (Source (take 2 sample_ypll @ ?row # drop 3 sample_ypll) None)"
    by (simp add: sample_fs_def sample_ypll_def)
  have h6: "?row ''State'' = Some (Text ''WI'')" by (simp add: sample_ypll_def)
  have h7: "\<forall>r \<in> set (take 2 sample_ypll @ drop 3 sample_ypll). \<not> missing_field False r"
    by (simp add: sample_ypll_def missing_field_def)
  have key: "rname (Text ''WI'') (Text ''Iron'') = ''WI__Iron''" by (simp add: rname_def)
  note inst = reliability_flag_gates_row [where row = ?row and parse = sample_parse
      and fs = sample_fs and cols = "[''YPLL Rate'']" and state = "Text ''WI''"
      and county = "Text ''Iron''" and vs = "[9000]", OF h1 h5]
  from inst
  have a: "process_row sample_parse [''YPLL Rate''] True Map.empty ?row = Inr Map.empty"
    by blast
  from inst sample_read_ypll
  have b: "read_csv (sample_fs(ypll_csv \<mapsto> Source (take 2 sample_ypll @ drop 3 sample_ypll) None))
     sample_parse ypll_csv [''YPLL Rate''] True = Inr [''WI__Dane'' \<mapsto> [7000]]" by simp
  from inst h2 h3 h4 h6
  have "process_row sample_parse [''YPLL Rate''] False Map.empty ?row
      = Inr (Map.empty(rname (Text ''WI'') (Text ''Iron'') \<mapsto> [9000]))" by blast
  with key have c: "process_row sample_parse [''YPLL Rate''] False Map.empty ?row
      = Inr [''WI__Iron'' \<mapsto> [9000]]" by simp
  from inst h2 h3 h4 h6 sample_read_ypll_unchecked
  have "rname (Text ''WI'') (Text ''Iron'')
      \<in> dom [''WI__Dane'' \<mapsto> [7000::real], ''WI__Iron'' \<mapsto> [9000]]" by blast
  with key have d: "''WI__Iron'' \<in> dom [''WI__Dane'' \<mapsto> [7000::real], ''WI__Iron'' \<mapsto> [9000]]"
    by simp
  from inst h2 h3 h4 h6 h7
  have "\<exists>d. read_csv sample_fs sample_parse ypll_csv [''YPLL Rate''] False = Inr d \<and>
      rname (Text ''WI'') (Text ''Iron'') \<in> dom d" by blast
  with key have e: "\<exists>d. read_csv sample_fs sample_parse ypll_csv [''YPLL Rate''] False = Inr d \<and>
      ''WI__Iron'' \<in> dom d" by simp
  from h1 h6 h2 h5 a b c d e show ?thesis by blast
qed

text \<open>
  The provisos on County and on the requested columns do not suffice. This row has the
  mark, a County and a rate that parses, but no State field, and with the flag off the
  loader raises \<open>KeyError\<close> where it builds the key.
\<close>

theorem read_csv_unreliable_row_without_state:
  "[''Unreliable'' \<mapsto> Text ''x'', ''County'' \<mapsto> Text ''Iron'', ''YPLL Rate'' \<mapsto> Text ''9000'']
     ''Unreliable'' = Some (Text ''x'') \<and>
   [''Unreliable'' \<mapsto> Text ''x'', ''County'' \<mapsto> Text ''Iron'', ''YPLL Rate'' \<mapsto> Text ''9000'']
     ''County'' = Some (Text ''Iron'') \<and>
   Text ''Iron'' \<noteq> Text '''' \<and>
   list_all2 (\<lambda>col v. \<exists>s.
       [''Unreliable'' \<mapsto> Text ''x'', ''County'' \<mapsto> Text ''Iron'', ''YPLL Rate'' \<mapsto> Text ''9000'']
         col = Some (Text s) \<and> s \<noteq> [] \<and> sample_parse s = Some v)
     [''YPLL Rate''] [9000] \<and>
   read_csv
     (sample_fs(ypll_csv \<mapsto> Source
        [[''Unreliable'' \<mapsto> Text ''x'', ''County'' \<mapsto> Text ''Iron'', ''YPLL Rate'' \<mapsto> Text ''9000'']]
        None))
     sample_parse ypll_csv [''YPLL Rate''] False = Inl (KeyError ''State'')"
  by (simp add: read_csv_def process_row_def unreliable_def getitem_def sample_parse_def)

text \<open>
  C5. A row whose County field is the empty text adds nothing to the mapping that
  \<open>read_csv\<close> returns, for any source, any columns and either value of the flag: the
  loader returns what it returns for the source without that row, and every key of the
  mapping was built from a row with another County.
\<close>

theorem read_csv_drops_empty_county:
  assumes "fs file_name = Some (Source reader stop)"
    and "read_csv fs parse file_name cols check_reliable = Inr d"
  shows "(\<forall>before row after.
            reader = before @ row # after \<and> row ''County'' = Some (Text '''') \<longrightarrow>
            read_csv (fs(file_name \<mapsto> Source (before @ after) stop)) parse file_name cols
              check_reliable = Inr d) \<and>
         (\<forall>k \<in> dom d. \<exists>row \<in> set reader. \<exists>state county.
            row ''State'' = Some state \<and> row ''County'' = Some county \<and>
            county \<noteq> Text '''' \<and> k = rname state county)"
proof (intro conjI allI impI ballI)
  fix before row after
  assume h: "reader = before @ row # after \<and> row ''County'' = Some (Text '''')"
  then have "rows' = rows" if "process_row parse cols check_reliable rows row = Inr rows'"
    for rows rows' :: "'a dataset"
    using that process_row_empty_county by blast
  moreover from h assms(1) have "fs file_name = Some (Source (before @ row # after) stop)"
    by simp
  ultimately show "read_csv (fs(file_name \<mapsto> Source (before @ after) stop)) parse file_name
      cols check_reliable = Inr d"
    using assms(2) by (rule read_csv_skip)
next
  fix k assume "k \<in> dom d"
  moreover from assms have "read_loop parse cols check_reliable reader Map.empty = Inr d"
    by (simp add: read_csv_returns)
  ultimately show "\<exists>row \<in> set reader. \<exists>state county.
      row ''State'' = Some state \<and> row ''County'' = Some county \<and>
      county \<noteq> Text '''' \<and> k = rname state county"
    using read_loop_keys [of parse cols check_reliable reader Map.empty d k] by simp
qed

theorem read_csv_drops_empty_county_witness:
  "sample_fs ypll_csv = Some (Source sample_ypll None) \<and>
   sample_ypll = [] @ sample_ypll ! 0 # tl sample_ypll \<and>
   (sample_ypll ! 0) ''County'' = Some (Text '''') \<and>
   read_csv sample_fs sample_parse ypll_csv [''YPLL Rate''] True = Inr [''WI__Dane'' \<mapsto> [7000]] \<and>
   read_csv (sample_fs(ypll_csv \<mapsto> Source ([] @ tl sample_ypll) None)) sample_parse ypll_csv
     [''YPLL Rate''] True = Inr [''WI__Dane'' \<mapsto> [7000]] \<and>
   ''WI__Dane'' \<in> dom [''WI__Dane'' \<mapsto> [7000::real]] \<and>
   (\<exists>row \<in> set sample_ypll. \<exists>state county.
      row ''State'' = Some state \<and> row ''County'' = Some county \<and>
      county \<noteq> Text '''' \<and> ''WI__Dane'' = rname state county)"
proof -
  have h1: "sample_fs ypll_csv = Some (Source sample_ypll None)" by (simp add: sample_fs_def)
  have h2: "sample_ypll = [] @ sample_ypll ! 0 # tl sample_ypll" by (simp add: sample_ypll_def)
  have h3: "(sample_ypll ! 0) ''County'' = Some (Text '''')" by (simp add: sample_ypll_def)
  have h4: "''WI__Dane'' \<in> dom [''WI__Dane'' \<mapsto> [7000::real]]" by simp
  note inst = read_csv_drops_empty_county [OF h1 sample_read_ypll]
  from inst h2 h3
  have a: "read_csv (sample_fs(ypll_csv \<mapsto> Source ([] @ tl sample_ypll) None)) sample_parse
     ypll_csv [''YPLL Rate''] True = Inr [''WI__Dane'' \<mapsto> [7000]]" by blast
  from inst h4
  have b: "\<exists>row \<in> set sample_ypll. \<exists>state county.
      row ''State'' = Some state \<and> row ''County'' = Some county \<and>
      county \<noteq> Text '''' \<and> ''WI__Dane'' = rname state county" by blast
  from h1 h2 h3 h4 sample_read_ypll a b show ?thesis by blast
qed

text \<open>
  C6. A row that passes the gates, with every requested column parsed, is stored under
  the text of its State, the separator "__" and the text of its County, written one
  after the other (the \<open>None\<close> of a short line prints as the word None). In a source
  the entry under that key holds the numbers of this row when no later row of the
  source is stored under the same key, whatever earlier rows stored there: the last
  write wins.
\<close>

theorem region_key_last_write_wins:
  assumes "unreliable check_reliable row = Inr False"
    and "row ''State'' = Some state"
    and "row ''County'' = Some county" and "county \<noteq> Text ''''"
    and "floats parse row cols = Inr vs"
  shows "(\<forall>rows. process_row parse cols check_reliable rows row
            = Inr (rows(percent_s state @ ''__'' @ percent_s county \<mapsto> vs))) \<and>
         (\<forall>fs file_name before after stop d.
            fs file_name = Some (Source (before @ row # after) stop) \<and>
            (\<forall>r \<in> set after. \<forall>m. process_row parse cols check_reliable Map.empty r = Inr m \<longrightarrow>
               m (percent_s state @ ''__'' @ percent_s county) = None) \<and>
            read_csv fs parse file_name cols check_reliable = Inr d \<longrightarrow>
            d (percent_s state @ ''__'' @ percent_s county) = Some vs)"
proof -
  let ?key = "percent_s state @ ''__'' @ percent_s county"
  have step: "process_row parse cols check_reliable rows row = Inr (rows(?key \<mapsto> vs))" for rows
    using process_row_admits [OF assms(1) assms(3) assms(4) assms(2) assms(5), of rows]
    by (simp add: rname_def)
  have last: "d ?key = Some vs"
    if src: "fs file_name = Some (Source (before @ row # after) stop)"
      and later: "\<forall>r \<in> set after. \<forall>m. process_row parse cols check_reliable Map.empty r = Inr m \<longrightarrow>
               m ?key = None"
      and run: "read_csv fs parse file_name cols check_reliable = Inr d"
    for fs file_name before after stop d
  proof -
    from src run obtain mid where
      a: "read_loop parse cols check_reliable after (mid(?key \<mapsto> vs)) = Inr d"
      by (auto simp: read_csv_returns read_loop_append step split: sum.splits)
    from read_loop_untouched [OF later a] show ?thesis by simp
  qed
  from step last show ?thesis by blast
qed

theorem region_key_last_write_wins_witness:
  "unreliable True ((sample_ypll ! 1)(''YPLL Rate'' \<mapsto> Text ''9000'')) = Inr False \<and>
   floats sample_parse ((sample_ypll ! 1)(''YPLL Rate'' \<mapsto> Text ''9000'')) [''YPLL Rate'']
     = Inr [9000] \<and>
   process_row sample_parse [''YPLL Rate''] True Map.empty
     ((sample_ypll ! 1)(''YPLL Rate'' \<mapsto> Text ''9000'')) = Inr [''WI__Dane'' \<mapsto> [9000]] \<and>
   process_row sample_parse [''YPLL Rate''] True Map.empty
     ((sample_ypll ! 1)(''YPLL Rate'' \<mapsto> Text '''')) = Inr Map.empty \<and>
   (\<exists>d. read_csv
      (sample_fs(ypll_csv \<mapsto> Source
         ([sample_ypll ! 1] @ (sample_ypll ! 1)(''YPLL Rate'' \<mapsto> Text ''9000'')
            # [(sample_ypll ! 1)(''YPLL Rate'' \<mapsto> Text '''')]) None))
      sample_parse ypll_csv [''YPLL Rate''] True = Inr d \<and> d ''WI__Dane'' = Some [9000])"
proof -
  let ?row = "(sample_ypll ! 1)(''YPLL Rate'' \<mapsto> Text ''9000'')"
  let ?late = "(sample_ypll ! 1)(''YPLL Rate'' \<mapsto> Text '''')"
  let ?fs = "sample_fs(ypll_csv \<mapsto> Source ([sample_ypll ! 1] @ ?row # [?late]) None)"
  have h1: "unreliable True ?row = Inr False"
    by (simp add: unreliable_def getitem_def sample_ypll_def)
  have h2: "?row ''State'' = Some (Text ''WI'')" by (simp add: sample_ypll_def)
  have h3: "?row ''County'' = Some (Text ''Dane'')" by (simp add: sample_ypll_def)
  have h4: "Text ''Dane'' \<noteq> Text ''''" by simp
  have h5: "floats sample_parse ?row [''YPLL Rate''] = Inr [9000]"
    by (simp add: getitem_def float_py_def sample_parse_def)
  have late: "process_row sample_parse [''YPLL Rate''] True Map.empty ?late = Inr Map.empty"
    by (simp add: process_row_def unreliable_def getitem_def float_py_def sample_ypll_def)
  then have h6: "\<forall>r \<in> set [?late]. \<forall>m. process_row sample_parse [''YPLL Rate''] True Map.empty r
      = Inr m \<longrightarrow> m (percent_s (Text ''WI'') @ ''__'' @ percent_s (Text ''Dane'')) = None"
    by auto
  have h7: "?fs ypll_csv = Some (Source ([sample_ypll ! 1] @ ?row # [?late]) None)" by simp
  have "\<exists>d. read_loop sample_parse [''YPLL Rate''] True
      ([sample_ypll ! 1] @ ?row # [?late]) Map.empty = Inr d"
    by (simp add: process_row_def unreliable_def getitem_def float_py_def sample_ypll_def
        sample_parse_def)
  then obtain d where
    run: "read_csv ?fs sample_parse ypll_csv [''YPLL Rate''] True = Inr d"
    by (auto simp: read_csv_returns)
  note inst = region_key_last_write_wins [where row = ?row and parse = sample_parse,
      OF h1 h2 h3 h4 h5]
  from inst have a: "process_row sample_parse [''YPLL Rate''] True Map.empty ?row
      = Inr [''WI__Dane'' \<mapsto> [9000]]" by simp
  from inst h6 h7 run
  have "d (percent_s (Text ''WI'') @ ''__'' @ percent_s (Text ''Dane'')) = Some [9000]" by blast
  then have b: "d ''WI__Dane'' = Some [9000]" by simp
  from h1 h5 a late run b show ?thesis by blast
qed

text \<open>
  C7, as the code has it. \<open>read_csv\<close> raises exactly when the source cannot be opened,
  or the reader raises while the rows are read, or some row that the reader yields
  lacks a field that the loop body reads outside its \<open>try\<close>. A source that cannot be
  opened gives \<open>IOError\<close>, and an exception of the reader leaves the function as it is
  when no row before it raised. A row that has those fields and is unreliable under
  the flag, or has an empty County, or has a requested column that \<open>float\<close> does not
  convert, leaves the dictionary as it is and raises nothing.
\<close>

theorem read_csv_errors:
  "((\<exists>e. read_csv fs parse file_name cols check_reliable = Inl e) \<longleftrightarrow>
      fs file_name = None \<or>
      (\<exists>reader stop. fs file_name = Some (Source reader stop) \<and>
         ((\<exists>row \<in> set reader. missing_field check_reliable row) \<or> stop \<noteq> None))) \<and>
   (fs file_name = None \<longrightarrow> read_csv fs parse file_name cols check_reliable = Inl IOError) \<and>
   (fs file_name = Some (Source reader (Some e)) \<and>
    (\<forall>row \<in> set reader. \<not> missing_field check_reliable row) \<longrightarrow>
      read_csv fs parse file_name cols check_reliable = Inl e) \<and>
   (\<not> missing_field check_reliable row \<and>
    ((check_reliable \<and> row ''Unreliable'' = Some (Text ''x'')) \<or>
     row ''County'' = Some (Text '''') \<or>
     (\<exists>col \<in> set cols. \<exists>c. row col = Some c \<and>
        (c = NoneCell \<or> (\<exists>s. c = Text s \<and> (s = [] \<or> parse s = None))))) \<longrightarrow>
    process_row parse cols check_reliable rows row = Inr rows)"
proof (intro conjI impI)
  show "(\<exists>e. read_csv fs parse file_name cols check_reliable = Inl e) \<longleftrightarrow>
      fs file_name = None \<or>
      (\<exists>reader stop. fs file_name = Some (Source reader stop) \<and>
         ((\<exists>row \<in> set reader. missing_field check_reliable row) \<or> stop \<noteq> None))"
  proof (cases "fs file_name")
    case None
    then show ?thesis by (simp add: read_csv_def)
  next
    case (Some src)
    obtain reader stop where src: "src = Source reader stop" by (cases src)
    show ?thesis
    proof (cases "read_loop parse cols check_reliable reader Map.empty")
      case (Inl e)
      then have "\<exists>row \<in> set reader. missing_field check_reliable row"
        using read_loop_raises [of parse cols check_reliable reader Map.empty] by simp
      with Some src Inl show ?thesis by (simp add: read_csv_def)
    next
      case (Inr d)
      then have "\<not> (\<exists>row \<in> set reader. missing_field check_reliable row)"
        using read_loop_raises [of parse cols check_reliable reader Map.empty] by simp
      with Some src Inr show ?thesis by (cases stop) (simp_all add: read_csv_def)
    qed
  qed
next
  assume "fs file_name = None"
  then show "read_csv fs parse file_name cols check_reliable = Inl IOError"
    by (simp add: read_csv_def)
next
  assume h: "fs file_name = Some (Source reader (Some e)) \<and>
    (\<forall>row \<in> set reader. \<not> missing_field check_reliable row)"
  then have "\<not> (\<exists>e. read_loop parse cols check_reliable reader Map.empty = Inl e)"
    by (simp add: read_loop_raises)
  then obtain d where "read_loop parse cols check_reliable reader Map.empty = Inr d"
    by (cases "read_loop parse cols check_reliable reader Map.empty") auto
  with h show "read_csv fs parse file_name cols check_reliable = Inl e"
    by (simp add: read_csv_def)
next
  assume h: "\<not> missing_field check_reliable row \<and>
    ((check_reliable \<and> row ''Unreliable'' = Some (Text ''x'')) \<or>
     row ''County'' = Some (Text '''') \<or>
     (\<exists>col \<in> set cols. \<exists>c. row col = Some c \<and>
        (c = NoneCell \<or> (\<exists>s. c = Text s \<and> (s = [] \<or> parse s = None)))))"
  have "rows' = rows" if p: "process_row parse cols check_reliable rows row = Inr rows'" for rows'
  proof -
    from h consider
      (unrel) "check_reliable" "row ''Unreliable'' = Some (Text ''x'')" |
      (county) "row ''County'' = Some (Text '''')" |
      (parse) col c where "col \<in> set cols" "row col = Some c"
        "c = NoneCell \<or> (\<exists>s. c = Text s \<and> (s = [] \<or> parse s = None))"
      by blast
    then show ?thesis
    proof cases
      case unrel
      with p show ?thesis by (simp add: process_row_unreliable)
    next
      case county
      with p show ?thesis using process_row_empty_county by blast
    next
      case parse
      from parse have "\<exists>e. floats parse row cols = Inl e" by (rule floats_unparsable)
      with p show ?thesis using process_row_floats_fail by blast
    qed
  qed
  with h show "process_row parse cols check_reliable rows row = Inr rows"
    using process_row_keeps by blast
qed

theorem read_csv_errors_witness:
  "sample_fs ''ypll.csv'' = None \<and>
   read_csv sample_fs sample_parse ''ypll.csv'' [''YPLL Rate''] True = Inl IOError \<and>
   read_csv (sample_fs(ypll_csv \<mapsto> Source (take 2 sample_ypll) (Some CsvError))) sample_parse
     ypll_csv [''YPLL Rate''] True = Inl CsvError \<and>
   \<not> missing_field True (sample_ypll ! 3) \<and>
   (\<exists>col \<in> set [''YPLL Rate'']. \<exists>c. (sample_ypll ! 3) col = Some c \<and>
      (c = NoneCell \<or> (\<exists>s. c = Text s \<and> (s = [] \<or> sample_parse s = None)))) \<and>
   process_row sample_parse [''YPLL Rate''] True Map.empty (sample_ypll ! 3) = Inr Map.empty"
proof -
  let ?fs = "sample_fs(ypll_csv \<mapsto> Source (take 2 sample_ypll) (Some CsvError))"
  have h1: "sample_fs ''ypll.csv'' = None"
    by (simp add: sample_fs_def ypll_csv_def measures_csv_def)
  have h2: "\<not> missing_field True (sample_ypll ! 3)"
    by (simp add: missing_field_def sample_ypll_def)
  have h3: "\<exists>col \<in> set [''YPLL Rate'']. \<exists>c. (sample_ypll ! 3) col = Some c \<and>
      (c = NoneCell \<or> (\<exists>s. c = Text s \<and> (s = [] \<or> sample_parse s = None)))"
    by (simp add: sample_ypll_def)
  have h4: "?fs ypll_csv = Some (Source (take 2 sample_ypll) (Some CsvError))" by simp
  have h5: "\<forall>row \<in> set (take 2 sample_ypll). \<not> missing_field True row"
    by (simp add: missing_field_def sample_ypll_def)
  note inst = read_csv_errors [of sample_fs sample_parse "''ypll.csv''" "[''YPLL Rate'']" True
      "[]" CsvError "sample_ypll ! 3" Map.empty]
  note inst' = read_csv_errors [of ?fs sample_parse ypll_csv "[''YPLL Rate'']" True
      "take 2 sample_ypll" CsvError "sample_ypll ! 3" Map.empty]
  from inst h1 have a: "read_csv sample_fs sample_parse ''ypll.csv'' [''YPLL Rate''] True
      = Inl IOError" by blast
  from inst' h4 h5 have b: "read_csv ?fs sample_parse ypll_csv [''YPLL Rate''] True
      = Inl CsvError" by blast
  from inst h2 h3
  have c: "process_row sample_parse [''YPLL Rate''] True Map.empty (sample_ypll ! 3)
      = Inr Map.empty" by blast
  from h1 a b h2 h3 c show ?thesis by blast
qed

text \<open>
  Opening the source is not the only error. Here the source is opened and read to its
  end, and the loader raises \<open>KeyError\<close> because the header has no County column.
\<close>

theorem read_csv_raises_on_readable_source:
  "(sample_fs(measures_csv \<mapsto>
      Source [[''State'' \<mapsto> Text ''WI'', ''Population'' \<mapsto> Text ''6000'']] None)) measures_csv
     = Some (Source [[''State'' \<mapsto> Text ''WI'', ''Population'' \<mapsto> Text ''6000'']] None) \<and>
   read_csv
     (sample_fs(measures_csv \<mapsto>
        Source [[''State'' \<mapsto> Text ''WI'', ''Population'' \<mapsto> Text ''6000'']] None))
     sample_parse measures_csv [''Population''] False = Inl (KeyError ''County'')"
  by (simp add: read_csv_def process_row_def unreliable_def getitem_def)

text \<open>
  C8. When the two cleaned datasets share no key, \<open>get_arrs\<close> returns two empty
  sequences and raises nothing. In the join loop a key that only the dependent dataset
  has adds nothing (the loop runs as if its pair were not enumerated), and a key that
  only the measures dataset has adds nothing (the loop runs as if the entry were not
  there).
\<close>

theorem get_arrs_unmatched_keys:
  "(read_csv fs parse ypll_csv dependent_cols True = Inr ypll \<and>
    read_csv fs parse measures_csv independent_cols False = Inr measures' \<and>
    iteritems_of ypll (iteritems ypll) \<and> dom ypll \<inter> dom measures' = {} \<longrightarrow>
      get_arrs fs parse iteritems dependent_cols independent_cols = Inr ([], [])) \<and>
   (m k = None \<longrightarrow>
      join_loop (before @ (k, v) # after) m (ya, ma) = join_loop (before @ after) m (ya, ma)) \<and>
   (k \<notin> fst ` set kvs \<longrightarrow>
      join_loop kvs (m(k \<mapsto> w)) (ya, ma) = join_loop kvs m (ya, ma))"
proof (intro conjI impI)
  assume h: "read_csv fs parse ypll_csv dependent_cols True = Inr ypll \<and>
    read_csv fs parse measures_csv independent_cols False = Inr measures' \<and>
    iteritems_of ypll (iteritems ypll) \<and> dom ypll \<inter> dom measures' = {}"
  then have keys: "fst ` set (iteritems ypll) = dom ypll" by (simp add: iteritems_keys)
  have "\<forall>kv \<in> set (iteritems ypll). measures' (fst kv) = None"
  proof
    fix kv assume "kv \<in> set (iteritems ypll)"
    with keys have "fst kv \<in> dom ypll" by blast
    with h show "measures' (fst kv) = None" by blast
  qed
  from join_loop_unmatched [OF this] h
  show "get_arrs fs parse iteritems dependent_cols independent_cols = Inr ([], [])"
    by (simp add: get_arrs_join)
next
  assume "m k = None"
  then show "join_loop (before @ (k, v) # after) m (ya, ma) = join_loop (before @ after) m (ya, ma)"
    by (simp add: join_loop_append split: sum.splits prod.splits)
next
  assume "k \<notin> fst ` set kvs"
  then show "join_loop kvs (m(k \<mapsto> w)) (ya, ma) = join_loop kvs m (ya, ma)"
    by (rule join_loop_other_key)
qed

theorem get_arrs_unmatched_keys_witness:
  "dom [''WI__Dane'' \<mapsto> [7000::real]] \<inter> dom [''WI__Iron'' \<mapsto> [6000::real]] = {} \<and>
   get_arrs (sample_fs(measures_csv \<mapsto> Source (tl sample_measures) None)) sample_parse
     sample_iteritems [''YPLL Rate''] [''Population''] = Inr ([], []) \<and>
   join_loop ([] @ (''WI__Dane'', [7000::real]) # []) [''WI__Iron'' \<mapsto> [6000]] ([], [])
     = join_loop ([] @ []) [''WI__Iron'' \<mapsto> [6000]] ([], []) \<and>
   join_loop [(''WI__Iron'', [9000::real])] [''WI__Iron'' \<mapsto> [6000], ''WI__Dane'' \<mapsto> [500000]]
       ([], [])
     = join_loop [(''WI__Iron'', [9000])] [''WI__Iron'' \<mapsto> [6000]] ([], [])"
proof -
  let ?fs = "sample_fs(measures_csv \<mapsto> Source (tl sample_measures) None)"
  have differ: "ypll_csv \<noteq> measures_csv" by (simp add: ypll_csv_def measures_csv_def)
  have h1: "read_csv ?fs sample_parse ypll_csv [''YPLL Rate''] True
      = Inr [''WI__Dane'' \<mapsto> [7000]]"
    using sample_read_ypll differ by (simp add: read_csv_def sample_fs_def)
  have h2: "read_csv ?fs sample_parse measures_csv [''Population''] False
      = Inr [''WI__Iron'' \<mapsto> [6000]]"
    by (simp add: read_csv_def sample_measures_def process_row_def unreliable_def
        getitem_def float_py_def sample_parse_def rname_def)
  have h3: "dom [''WI__Dane'' \<mapsto> [7000::real]] \<inter> dom [''WI__Iron'' \<mapsto> [6000::real]] = {}"
    by simp
  have h4: "[''WI__Iron'' \<mapsto> [6000::real]] ''WI__Dane'' = None" by simp
  have h5: "''WI__Dane'' \<notin> fst ` set [(''WI__Iron'', [9000::real])]" by simp
  note inst = get_arrs_unmatched_keys [of ?fs sample_parse "[''YPLL Rate'']"
      "[''WI__Dane'' \<mapsto> [7000]]" "[''Population'']" "[''WI__Iron'' \<mapsto> [6000]]"
      sample_iteritems "[''WI__Iron'' \<mapsto> [6000]]" "''WI__Dane''" "[]" "[7000]" "[]" "[]" "[]"
      "[(''WI__Iron'', [9000])]" "[500000]"]
  from inst h1 h2 h3 sample_iteritems_ok
  have a: "get_arrs ?fs sample_parse sample_iteritems [''YPLL Rate''] [''Population'']
      = Inr ([], [])" by blast
  from inst h4
  have b: "join_loop ([] @ (''WI__Dane'', [7000::real]) # []) [''WI__Iron'' \<mapsto> [6000]] ([], [])
     = join_loop ([] @ []) [''WI__Iron'' \<mapsto> [6000]] ([], [])" by blast
  from inst h5
  have c: "join_loop [(''WI__Iron'', [9000::real])]
       [''WI__Iron'' \<mapsto> [6000], ''WI__Dane'' \<mapsto> [500000]] ([], [])
     = join_loop [(''WI__Iron'', [9000])] [''WI__Iron'' \<mapsto> [6000]] ([], [])" by blast
  from h3 a b c show ?thesis by blast
qed

text \<open>
  C10, as the code has it. In a row that has the fields read outside the \<open>try\<close>, a
  requested column that is not among the fields of the row raises \<open>KeyError\<close> inside
  the \<open>try\<close>, where it is swallowed: the row is dropped and nothing is raised. When
  every row of a readable source is such a row, the loader returns the empty mapping.
\<close>

theorem read_csv_missing_column:
  "(col \<in> set cols \<and> row col = None \<and> \<not> missing_field check_reliable row \<longrightarrow>
      process_row parse cols check_reliable rows row = Inr rows) \<and>
   (fs file_name = Some (Source reader None) \<and>
    (\<forall>row \<in> set reader. \<not> missing_field check_reliable row \<and> (\<exists>col \<in> set cols. row col = None)) \<longrightarrow>
      read_csv fs parse file_name cols check_reliable = Inr Map.empty)"
proof (intro conjI impI)
  have drop: "process_row parse cols check_reliable rows row = Inr rows"
    if "col \<in> set cols" "row col = None" "\<not> missing_field check_reliable row"
    for col row and rows :: "'a dataset"
  proof -
    from that(1,2) have "\<exists>e. floats parse row cols = Inl e" by (rule floats_missing_column)
    then have "rows' = rows" if "process_row parse cols check_reliable rows row = Inr rows'"
      for rows' using that process_row_floats_fail by blast
    with that(3) show ?thesis using process_row_keeps by blast
  qed
  {
    assume "col \<in> set cols \<and> row col = None \<and> \<not> missing_field check_reliable row"
    then show "process_row parse cols check_reliable rows row = Inr rows"
      using drop by blast
  }
  {
    assume h: "fs file_name = Some (Source reader None) \<and>
      (\<forall>row \<in> set reader. \<not> missing_field check_reliable row \<and> (\<exists>col \<in> set cols. row col = None))"
    have "\<forall>row \<in> set reader. \<not> missing_field check_reliable row \<and> (\<exists>col \<in> set cols. row col = None)
        \<Longrightarrow> read_loop parse cols check_reliable reader rows = Inr rows"
      for reader and rows :: "'a dataset"
    proof (induction reader)
      case Nil
      then show ?case by simp
    next
      case (Cons r reader)
      then have "process_row parse cols check_reliable rows r = Inr rows"
        using drop [of _ r rows] by auto
      with Cons show ?case by simp
    qed
    with h show "read_csv fs parse file_name cols check_reliable = Inr Map.empty"
      by (simp add: read_csv_def)
  }
qed

theorem read_csv_missing_column_witness:
  "''Populatoin'' \<in> set [''Populatoin''] \<and>
   (sample_measures ! 0) ''Populatoin'' = None \<and>
   \<not> missing_field False (sample_measures ! 0) \<and>
   process_row sample_parse [''Populatoin''] False Map.empty (sample_measures ! 0) = Inr Map.empty \<and>
   sample_fs measures_csv = Some (Source sample_measures None) \<and>
   read_csv sample_fs sample_parse measures_csv [''Populatoin''] False = Inr Map.empty"
proof -
  have h1: "''Populatoin'' \<in> set [''Populatoin'']" by simp
  have h2: "(sample_measures ! 0) ''Populatoin'' = None" by (simp add: sample_measures_def)
  have h3: "\<not> missing_field False (sample_measures ! 0)"
    by (simp add: missing_field_def sample_measures_def)
  have h4: "sample_fs measures_csv = Some (Source sample_measures None)"
    by (simp add: sample_fs_def ypll_csv_def measures_csv_def)
  have h5: "\<forall>row \<in> set sample_measures. \<not> missing_field False row \<and>
      (\<exists>col \<in> set [''Populatoin'']. row col = None)"
    by (simp add: missing_field_def sample_measures_def)
  note inst = read_csv_missing_column [of "''Populatoin''" "[''Populatoin'']"
      "sample_measures ! 0" False sample_parse Map.empty sample_fs measures_csv sample_measures]
  from inst h1 h2 h3
  have a: "process_row sample_parse [''Populatoin''] False Map.empty (sample_measures ! 0)
      = Inr Map.empty" by blast
  from inst h4 h5
  have b: "read_csv sample_fs sample_parse measures_csv [''Populatoin''] False = Inr Map.empty"
    by blast
  from h1 h2 h3 h4 a b show ?thesis by blast
qed

text \<open>
  A missing column is not swallowed when it is one that the body reads outside the
  \<open>try\<close>: the header has no County column, County is requested, and the loader
  raises \<open>KeyError\<close> with that name.
\<close>

theorem read_csv_missing_county_raises:
  "''County'' \<in> set [''County''] \<and>
   [''State'' \<mapsto> Text ''WI'', ''Population'' \<mapsto> Text ''6000''] ''County'' = None \<and>
   read_csv
     (sample_fs(''counties.csv'' \<mapsto>
        Source [[''State'' \<mapsto> Text ''WI'', ''Population'' \<mapsto> Text ''6000'']] None))
     sample_parse ''counties.csv'' [''County''] False = Inl (KeyError ''County'')"
  by (simp add: read_csv_def process_row_def unreliable_def getitem_def)

end
